theory Spec2Isabelle
  imports Main
begin

section \<open>Python string operations used by the views\<close>

text \<open>
  Text is a \<open>string\<close>, one \<open>char\<close> per code point, so the model covers code points
  below 256. On that range \<open>str.isspace\<close> holds for U+0009..U+000D, U+001C..U+001F,
  U+0020, U+0085 and U+00A0, which is what \<open>str.strip()\<close> removes at both ends.
\<close>

datatype py_error = IndexError | AIServiceError | DatabaseError

definition is_space :: "char \<Rightarrow> bool" where
  "is_space c =
     (let n = (of_char c :: nat)
      in (9 \<le> n \<and> n \<le> 13) \<or> (28 \<le> n \<and> n \<le> 31) \<or> n = 32 \<or> n = 133 \<or> n = 160)"

definition lstrip :: "string \<Rightarrow> string" where
  "lstrip s = dropWhile is_space s"

definition rstrip :: "string \<Rightarrow> string" where
  "rstrip s = rev (dropWhile is_space (rev s))"

definition strip :: "string \<Rightarrow> string" where
  "strip s = rstrip (lstrip s)"

text \<open>\<open>s.split('\n')\<close>: the pieces between newlines; never an empty list.\<close>

fun split_lines :: "string \<Rightarrow> string list" where
  "split_lines [] = [[]]"
| "split_lines (c # cs) =
     (if c = CHR ''\<newline>'' then [] # split_lines cs
      else (case split_lines cs of
              [] \<Rightarrow> [[c]]
            | l # ls \<Rightarrow> (c # l) # ls))"

text \<open>\<open>s.startswith(p)\<close>.\<close>

fun startswith :: "string \<Rightarrow> string \<Rightarrow> bool" where
  "startswith s [] = True"
| "startswith [] (p # ps) = False"
| "startswith (c # cs) (p # ps) = (c = p \<and> startswith cs ps)"

text \<open>
  \<open>s.replace(old, new)\<close>: every non-overlapping occurrence of \<open>old\<close>, found from the
  left, is replaced; with an empty \<open>old\<close> Python puts \<open>new\<close> around every character.
\<close>

function replace :: "string \<Rightarrow> string \<Rightarrow> string \<Rightarrow> string" where
  "replace old new [] = (if old = [] then new else [])"
| "replace old new (c # cs) =
     (if old = [] then new @ c # replace old new cs
      else if startswith (c # cs) old
        then new @ replace old new (drop (length old) (c # cs))
      else c # replace old new cs)"
  by pat_completeness auto
termination
  by (relation "measure (\<lambda>(old, new, s). length s)") auto

text \<open>\<open>str(n)\<close> for a non-negative integer, as the f-string \<open>f"hint_{i}"\<close> formats it.\<close>

definition digit_char :: "nat \<Rightarrow> char" where
  "digit_char d = char_of (48 + d)"

function str_nat :: "nat \<Rightarrow> string" where
  "str_nat n = (if n < 10 then [digit_char n] else str_nat (n div 10) @ [digit_char (n mod 10)])"
  by pat_completeness auto
termination
  by (relation "measure (\<lambda>n. n)") auto

declare str_nat.simps [simp del]

text \<open>\<open>xs[i]\<close> for \<open>i \<ge> 0\<close>: an index past the end raises.\<close>

definition index :: "'a list \<Rightarrow> nat \<Rightarrow> py_error + 'a" where
  "index xs i = (if i < length xs then Inr (xs ! i) else Inl IndexError)"

text \<open>\<open>d.get(k)\<close> on a dictionary whose values may be \<open>None\<close>.\<close>

type_synonym hint_map = "string \<rightharpoonup> string option"

definition dict_get :: "hint_map \<Rightarrow> string \<Rightarrow> string option" where
  "dict_get d k = (case d k of None \<Rightarrow> None | Some v \<Rightarrow> v)"

section \<open>The parse inside \<open>generate_ai_challenge\<close> (views.py, lines 186 to 218)\<close>

record parse_state =
  title_var :: string
  description_var :: string
  current_section :: "string option"

definition initial_state :: parse_state where
  "initial_state = \<lparr>title_var = [], description_var = [], current_section = None\<rparr>"

text \<open>One iteration of \<open>for line in lines\<close> (lines 193 to 202).\<close>

definition step :: "parse_state \<Rightarrow> string \<Rightarrow> parse_state" where
  "step st raw_line =
     (let line = strip raw_line in
      if line = [] then st
      else if startswith line ''TITLE:''
        then st\<lparr>title_var := strip (replace ''TITLE:'' [] line),
                current_section := Some ''title''\<rparr>
      else if startswith line ''DESCRIPTION:''
        then st\<lparr>current_section := Some ''description''\<rparr>
      else if current_section st = Some ''description'' \<and> \<not> startswith line ''HINT''
        then st\<lparr>description_var := description_var st @ line @ ''\<newline>''\<rparr>
      else st)"

fun scan_lines :: "parse_state \<Rightarrow> string list \<Rightarrow> parse_state" where
  "scan_lines st [] = st"
| "scan_lines st (l # ls) = scan_lines (step st l) ls"

definition default_hints :: "string list" where
  "default_hints =
     [''Start by breaking down the problem into smaller parts. What's the first step you would take?'',
      ''Consider edge cases and how your solution handles different inputs. What assumptions are you making?'',
      ''Look at your algorithm's efficiency. Can you optimize it further? Remember to test your solution with various inputs.'']"

text \<open>\<open>[result["hints"].get(f"hint_{i}") for i in range(1, 4)]\<close> (line 186).\<close>

definition ai_hints_of :: "hint_map \<Rightarrow> string option list" where
  "ai_hints_of hm = map (\<lambda>i. dict_get hm (''hint_'' @ str_nat i)) [1, 2, 3]"

text \<open>
  The loop \<open>for i in range(3)\<close> (lines 209 to 214), over the indices still to visit.
  \<open>ai_hints[i] and ai_hints[i].strip()\<close> is false for \<open>None\<close>, for the empty string and
  for a string that is empty once stripped.
\<close>

fun fill_hints :: "string option list \<Rightarrow> nat list \<Rightarrow> string list \<Rightarrow> py_error + string list" where
  "fill_hints ai_hints [] hints = Inr hints"
| "fill_hints ai_hints (i # rest) hints =
     (case index ai_hints i of
        Inl e \<Rightarrow> Inl e
      | Inr h \<Rightarrow>
          (case h of
             Some s \<Rightarrow>
               (if s \<noteq> [] \<and> strip s \<noteq> []
                then fill_hints ai_hints rest (hints @ [strip s])
                else (case index default_hints i of
                        Inl e \<Rightarrow> Inl e
                      | Inr d \<Rightarrow> fill_hints ai_hints rest (hints @ [d])))
           | None \<Rightarrow>
               (case index default_hints i of
                  Inl e \<Rightarrow> Inl e
                | Inr d \<Rightarrow> fill_hints ai_hints rest (hints @ [d]))))"

record draft =
  draft_title :: string
  draft_description :: string
  draft_hints :: "string list"

text \<open>
  The three values handed to the \<open>Challenge\<close> constructor: \<open>title if title else
  "AI Generated Challenge"\<close>, \<open>description.strip()\<close> and \<open>hints\<close>.
\<close>

definition parse :: "string \<Rightarrow> hint_map \<Rightarrow> py_error + draft" where
  "parse challenge_text hm =
     (let ai_hints = ai_hints_of hm;
          st = scan_lines initial_state (split_lines (strip challenge_text))
      in case fill_hints ai_hints [0, 1, 2] [] of
           Inl e \<Rightarrow> Inl e
         | Inr hints \<Rightarrow>
             Inr \<lparr>draft_title = (if title_var st \<noteq> [] then title_var st
                                 else ''AI Generated Challenge''),
                  draft_description = strip (description_var st),
                  draft_hints = hints\<rparr>)"

text \<open>
  The rule of the specification for one hint slot, in its words: the trimmed value when it
  is present and non-blank after trimming, otherwise the default of that slot.
\<close>

definition resolve_hint :: "string option \<Rightarrow> string \<Rightarrow> string" where
  "resolve_hint h d = (case h of None \<Rightarrow> d | Some s \<Rightarrow> if strip s \<noteq> [] then strip s else d)"

text \<open>The all-defaults draft of the specification.\<close>

definition all_defaults_draft :: draft where
  "all_defaults_draft =
     \<lparr>draft_title = ''AI Generated Challenge'', draft_description = [],
      draft_hints = default_hints\<rparr>"

text \<open>
  The lines that reach the description while the section is \<open>description\<close>: not blank,
  not a \<open>DESCRIPTION:\<close> marker and not starting with \<open>HINT\<close>.
\<close>

definition feeds_description :: "string \<Rightarrow> bool" where
  "feeds_description l \<longleftrightarrow>
     strip l \<noteq> [] \<and> \<not> startswith (strip l) ''DESCRIPTION:'' \<and> \<not> startswith (strip l) ''HINT''"

section \<open>Records, the store and the requests\<close>

text \<open>
  \<open>models.py\<close> and \<open>forms.py\<close> are not part of the sources; the records carry the fields
  the views and the migration read and write. A table is a list of rows with their primary
  keys, in insertion order.
\<close>

record challenge =
  title :: string
  description :: string
  difficulty :: string
  hints :: "string list"
  created_by :: string
  is_ai_generated :: bool
  is_approved :: bool

text \<open>
  A field of a row as the migration sees it: the attribute may be missing from the model
  (\<open>hasattr\<close> is false), hold \<open>None\<close>, or hold text.
\<close>

datatype field_value = NoAttribute | Null | Text string

record solution =
  solution_text :: string
  solution_challenge :: nat
  solution_user :: string
  is_correct :: bool
  correctness_level :: field_value
  ai_feedback :: string

record site =
  challenges :: "(nat \<times> challenge) list"
  solutions :: "(nat \<times> solution) list"
  writable :: bool
  flash :: "(string \<times> string) list"

record request =
  req_method :: string
  req_POST :: "string \<rightharpoonup> string"
  req_user :: "string option"

datatype response = Redirect string nat | RedirectLogin | Render string | Http404

record generation_result =
  gen_raw :: string
  gen_hints :: hint_map

text \<open>\<open>messages.success\<close> and \<open>messages.error\<close>.\<close>

definition add_message :: "string \<Rightarrow> string \<Rightarrow> site \<Rightarrow> site" where
  "add_message level msg s = s\<lparr>flash := flash s @ [(level, msg)]\<rparr>"

text \<open>The key an insert gives a new row: above every key of the table.\<close>

definition fresh_pk :: "(nat \<times> 'a) list \<Rightarrow> nat" where
  "fresh_pk tbl = Suc (foldr max (map fst tbl) 0)"

text \<open>\<open>save()\<close> of a new row; a store that accepts no write raises.\<close>

definition save_challenge :: "challenge \<Rightarrow> site \<Rightarrow> py_error + nat \<times> site" where
  "save_challenge c s =
     (if writable s
      then Inr (fresh_pk (challenges s), s\<lparr>challenges := challenges s @ [(fresh_pk (challenges s), c)]\<rparr>)
      else Inl DatabaseError)"

definition save_solution :: "solution \<Rightarrow> site \<Rightarrow> py_error + site" where
  "save_solution sol s =
     (if writable s
      then Inr (s\<lparr>solutions := solutions s @ [(fresh_pk (solutions s), sol)]\<rparr>)
      else Inl DatabaseError)"



text \<open>\<open>Challenge.objects.filter(is_approved=True)\<close> (\<open>challenge_list\<close>, line 18).\<close>

definition approved_challenges :: "site \<Rightarrow> (nat \<times> challenge) list" where
  "approved_challenges s = filter (\<lambda>(k, c). is_approved c) (challenges s)"

text \<open>
  \<open>get_object_or_404(Challenge, pk=pk, is_approved=True)\<close> (\<open>challenge_detail\<close> and
  \<open>submit_solution\<close>); \<open>None\<close> is the 404.
\<close>

definition get_object_or_404 :: "site \<Rightarrow> nat \<Rightarrow> challenge option" where
  "get_object_or_404 s pk =
     (case filter (\<lambda>(k, c). k = pk \<and> is_approved c) (challenges s) of
        [] \<Rightarrow> None
      | (k, c) # _ \<Rightarrow> Some c)"

text \<open>\<open>request.POST.get(key, default)\<close>.\<close>

definition post_get :: "request \<Rightarrow> string \<Rightarrow> string \<Rightarrow> string" where
  "post_get req key dflt = (case req_POST req key of None \<Rightarrow> dflt | Some v \<Rightarrow> v)"

section \<open>\<open>submit_solution\<close> (views.py, lines 127 to 169)\<close>

text \<open>The f-string of line 159.\<close>

definition fallback_feedback :: "string \<Rightarrow> string" where
  "fallback_feedback username =
     ''Our AI assistant is taking a break, but your solution shows real effort, '' @ username @
     ''! Keep exploring different approaches and don't give up.''"

text \<open>
  The feedback service and the form are parameters: \<open>get_challenge_feedback\<close> returns the
  feedback or raises, \<open>form\<close> gives the submitted solution text when the form is valid.
\<close>

definition submit_solution ::
  "(string \<Rightarrow> challenge \<Rightarrow> string \<Rightarrow> py_error + string) \<Rightarrow> ((string \<rightharpoonup> string) \<Rightarrow> string option) \<Rightarrow>
   request \<Rightarrow> nat \<Rightarrow> site \<Rightarrow> response \<times> site" where
  "submit_solution get_challenge_feedback form req pk s =
     (case req_user req of
        None \<Rightarrow> (RedirectLogin, s)
      | Some username \<Rightarrow>
          (case get_object_or_404 s pk of
             None \<Rightarrow> (Http404, s)
           | Some ch \<Rightarrow>
               if req_method req = ''POST'' then
                 (case form (req_POST req) of
                    Some text \<Rightarrow>
                      (let sol = \<lparr>solution_text = text, solution_challenge = pk,
                                  solution_user = username, is_correct = True,
                                  correctness_level = Text ''correct'', ai_feedback = []\<rparr>;
                           sol = (case get_challenge_feedback (solution_text sol) ch username of
                                    Inr fb \<Rightarrow> sol\<lparr>ai_feedback := fb\<rparr>
                                  | Inl e \<Rightarrow> sol\<lparr>ai_feedback := fallback_feedback username\<rparr>)
                       in case save_solution sol s of
                            Inr s' \<Rightarrow>
                              (Redirect ''challenge_detail'' pk,
                               add_message ''success''
                                 ''Your solution has been submitted! Check out the AI feedback.'' s')
                          | Inl e \<Rightarrow>
                              (Redirect ''challenge_detail'' pk,
                               add_message ''error''
                                 ''There was an error saving your solution. Please try again.'' s))
                  | None \<Rightarrow>
                      (Redirect ''challenge_detail'' pk,
                       add_message ''error'' ''Please correct the errors in the form.'' s))
               else (Redirect ''challenge_detail'' pk, s)))"

section \<open>\<open>generate_ai_challenge\<close> (views.py, lines 171 to 233)\<close>

definition generation_failed :: "site \<Rightarrow> response \<times> site" where
  "generation_failed s =
     (Render ''challenges/generate_challenge.html'',
      add_message ''error'' ''There was an error generating your challenge. Please try again.'' s)"

definition generate_ai_challenge ::
  "(string \<Rightarrow> string \<Rightarrow> string \<Rightarrow> py_error + generation_result) \<Rightarrow> request \<Rightarrow> site \<Rightarrow> response \<times> site" where
  "generate_ai_challenge generate_new_challenge req s =
     (case req_user req of
        None \<Rightarrow> (RedirectLogin, s)
      | Some username \<Rightarrow>
          if req_method req = ''POST'' then
            (let difficulty' = post_get req ''difficulty'' ''beginner'';
                 topic = post_get req ''topic'' ''programming''
             in case generate_new_challenge difficulty' topic username of
                  Inl e \<Rightarrow> generation_failed s
                | Inr result \<Rightarrow>
                    (case parse (gen_raw result) (gen_hints result) of
                       Inl e \<Rightarrow> generation_failed s
                     | Inr d \<Rightarrow>
                         (case save_challenge
                                 \<lparr>title = draft_title d, description = draft_description d,
                                  difficulty = difficulty', hints = draft_hints d,
                                  created_by = username, is_ai_generated = True,
                                  is_approved = True\<rparr> s of
                            Inl e \<Rightarrow> generation_failed s
                          | Inr (pk, s') \<Rightarrow>
                              (Redirect ''challenge_detail'' pk,
                               add_message ''success'' ''Your AI challenge has been generated!'' s'))))
          else (Render ''challenges/generate_challenge.html'', s))"

section \<open>The migration \<open>fix_correctness_level\<close>\<close>





section \<open>Example inputs\<close>

text \<open>Concrete requests, services and stores at which the theorems below are evaluated.\<close>

definition example_hint_map :: hint_map where
  "example_hint_map =
     [''hint_1'' \<mapsto> Some ''  '', ''hint_2'' \<mapsto> Some ''Check bounds'', ''hint_3'' \<mapsto> None]"

definition padded_hint_map :: hint_map where
  "padded_hint_map =
     [''hint_1'' \<mapsto> Some ''  Use a loop \<newline>'', ''hint_2'' \<mapsto> Some '' \<newline> '',
      ''hint_3'' \<mapsto> Some '' Check  bounds  '']"

definition ai_down :: "string \<Rightarrow> challenge \<Rightarrow> string \<Rightarrow> py_error + string" where
  "ai_down text ch username = Inl AIServiceError"

definition solution_text_form :: "(string \<rightharpoonup> string) \<Rightarrow> string option" where
  "solution_text_form post = post ''solution_text''"

definition example_site :: site where
  "example_site =
     \<lparr>challenges =
        [(1, \<lparr>title = ''Two Sum'', description = ''Add two numbers.'', difficulty = ''beginner'',
              hints = default_hints, created_by = ''ann'', is_ai_generated = False,
              is_approved = True\<rparr>)],
      solutions = [], writable = True, flash = []\<rparr>"

definition solution_post :: "string \<Rightarrow> request" where
  "solution_post username =
     \<lparr>req_method = ''POST'', req_POST = [''solution_text'' \<mapsto> ''print(1)''],
      req_user = Some username\<rparr>"

definition ai_up :: "string \<Rightarrow> string \<Rightarrow> string \<Rightarrow> py_error + generation_result" where
  "ai_up difficulty' topic username =
     Inr \<lparr>gen_raw = ''TITLE: Reverse a List\<newline>DESCRIPTION:\<newline>Reverse it in place.'',
          gen_hints = Map.empty\<rparr>"

definition generate_post :: "string \<Rightarrow> request" where
  "generate_post username =
     \<lparr>req_method = ''POST'', req_POST = [''difficulty'' \<mapsto> ''advanced''],
      req_user = Some username\<rparr>"


section \<open>Facts about the string operations\<close>

lemma strip_Nil: "strip [] = []"
  by (simp add: strip_def lstrip_def rstrip_def)

lemma rstrip_prefix: "s = rstrip s @ rev (takeWhile is_space (rev s))"
  unfolding rstrip_def by (metis rev_append rev_rev_ident takeWhile_dropWhile_id)

lemma strip_idem: "strip (strip s) = strip s"
  by (metis (no_types, lifting) Nil_is_rev_conv dropWhile_eq_self_iff
    hd_append2 hd_dropWhile lstrip_def rev_rev_ident rstrip_def
    rstrip_prefix strip_def)

lemma startswith_hd: "startswith s (p # ps) \<Longrightarrow> s \<noteq> [] \<and> hd s = p"
  by (cases s) auto

lemma strip_decomp:
  "\<exists>pre post. t = pre @ strip t @ post \<and> (\<forall>c\<in>set pre. is_space c) \<and> (\<forall>c\<in>set post. is_space c)"
proof -
  have a: "t = takeWhile is_space t @ lstrip t" by (simp add: lstrip_def)
  have b: "lstrip t = strip t @ rev (takeWhile is_space (rev (lstrip t)))"
    using rstrip_prefix [of "lstrip t"] by (simp add: strip_def)
  have c: "\<forall>c\<in>set (takeWhile is_space t). is_space c"
    by (auto dest: set_takeWhileD)
  have d: "\<forall>c\<in>set (rev (takeWhile is_space (rev (lstrip t)))). is_space c"
    by (auto dest: set_takeWhileD)
  from a b have "t = takeWhile is_space t @ strip t @ rev (takeWhile is_space (rev (lstrip t)))"
    by simp
  with c d show ?thesis by blast
qed

lemma strip_ends:
  assumes "strip t \<noteq> []"
  shows "\<not> is_space (hd (strip t)) \<and> \<not> is_space (last (strip t))"
proof -
  let ?u = "lstrip t"
  let ?w = "dropWhile is_space (rev ?u)"
  have r: "strip t = rev ?w" by (simp add: strip_def rstrip_def)
  with assms have w: "?w \<noteq> []" by simp
  have "last (strip t) = hd ?w" using w by (simp add: r last_rev)
  moreover have "\<not> is_space (hd ?w)" using w by (rule hd_dropWhile)
  ultimately have l: "\<not> is_space (last (strip t))" by simp
  have u: "?u = strip t @ rev (takeWhile is_space (rev ?u))"
    using rstrip_prefix [of ?u] by (simp add: strip_def)
  with assms have "?u \<noteq> []" by auto
  then have "\<not> is_space (hd ?u)" unfolding lstrip_def by (rule hd_dropWhile)
  moreover have "hd ?u = hd (strip t)" using u assms by (metis hd_append2)
  ultimately show ?thesis using l by simp
qed

lemma strip_blank: "strip t = [] \<longleftrightarrow> (\<forall>c\<in>set t. is_space c)"
proof
  assume e: "strip t = []"
  from strip_decomp [of t] obtain pre post
    where "t = pre @ strip t @ post" "\<forall>c\<in>set pre. is_space c" "\<forall>c\<in>set post. is_space c"
    by blast
  with e show "\<forall>c\<in>set t. is_space c" by (metis UnE append_Nil set_append)
next
  assume "\<forall>c\<in>set t. is_space c"
  then have "dropWhile is_space t = []" by (induction t) simp_all
  then show "strip t = []" by (simp only: strip_def lstrip_def rstrip_def dropWhile.simps rev.simps)
qed

lemma strip_trimmed:
  "strip t = [] \<or> (\<not> is_space (hd (strip t)) \<and> \<not> is_space (last (strip t)))"
  using strip_ends [of t] by blast

section \<open>Facts about the hint slots\<close>

lemma default_hints_length: "length default_hints = 3"
  by (simp add: default_hints_def)

lemma default_hints_list: "default_hints = [default_hints ! 0, default_hints ! 1, default_hints ! 2]"
  by (simp add: default_hints_def)

lemma hint_keys: "str_nat 1 = ''1''" "str_nat 2 = ''2''" "str_nat 3 = ''3''"
  by code_simp+

lemma ai_hints_of_eq:
  "ai_hints_of hm = [dict_get hm ''hint_1'', dict_get hm ''hint_2'', dict_get hm ''hint_3'']"
  unfolding ai_hints_of_def by (simp only: list.map hint_keys append.simps)

lemma index_default_hints: "i < 3 \<Longrightarrow> index default_hints i = Inr (default_hints ! i)"
  by (simp add: index_def default_hints_length)

lemma fill_hints_three:
  "fill_hints [a, b, c] [0, 1, 2] [] =
     Inr [resolve_hint a (default_hints ! 0), resolve_hint b (default_hints ! 1),
          resolve_hint c (default_hints ! 2)]"
  by (auto simp: index_def index_default_hints resolve_hint_def strip_Nil default_hints_length split: option.splits)

lemma resolve_hint_absent: "resolve_hint None d = d"
  by (simp add: resolve_hint_def)

lemma resolve_hint_default:
  "h = None \<or> (\<exists>t. h = Some t \<and> strip t = []) \<Longrightarrow> resolve_hint h d = d"
  by (auto simp: resolve_hint_def)

lemma resolve_hint_given: "strip t \<noteq> [] \<Longrightarrow> resolve_hint (Some t) d = strip t"
  by (simp add: resolve_hint_def)

lemma dict_get_blank:
  "hm k = None \<or> hm k = Some None \<or> (\<exists>t. hm k = Some (Some t) \<and> strip t = []) \<Longrightarrow>
   dict_get hm k = None \<or> (\<exists>t. dict_get hm k = Some t \<and> strip t = [])"
  by (auto simp: dict_get_def)

lemma dict_get_given: "hm k = Some (Some t) \<Longrightarrow> dict_get hm k = Some t"
  by (simp add: dict_get_def)

lemma hint_key_of:
  "''hint_'' @ str_nat (Suc 0) = ''hint_1''" "''hint_'' @ str_nat (Suc 1) = ''hint_2''"
  "''hint_'' @ str_nat (Suc 2) = ''hint_3''"
  by code_simp+

lemma less_three: "i < 3 \<Longrightarrow> i = 0 \<or> i = 1 \<or> i = (2::nat)"
  by auto

lemma default_hints_trimmed:
  "default_hints ! 0 \<noteq> [] \<and> \<not> is_space (hd (default_hints ! 0)) \<and> \<not> is_space (last (default_hints ! 0))"
  "default_hints ! 1 \<noteq> [] \<and> \<not> is_space (hd (default_hints ! 1)) \<and> \<not> is_space (last (default_hints ! 1))"
  "default_hints ! 2 \<noteq> [] \<and> \<not> is_space (hd (default_hints ! 2)) \<and> \<not> is_space (last (default_hints ! 2))"
  by code_simp+

lemma default_hint_trimmed:
  "i < 3 \<Longrightarrow> default_hints ! i \<noteq> [] \<and> \<not> is_space (hd (default_hints ! i)) \<and>
     \<not> is_space (last (default_hints ! i))"
  using default_hints_trimmed by (auto dest!: less_three)

lemma placeholder_trimmed:
  "\<not> is_space (hd ''AI Generated Challenge'') \<and> \<not> is_space (last ''AI Generated Challenge'')"
  by code_simp

lemma resolve_hint_trimmed:
  assumes "d \<noteq> [] \<and> \<not> is_space (hd d) \<and> \<not> is_space (last d)"
  shows "resolve_hint h d \<noteq> [] \<and> \<not> is_space (hd (resolve_hint h d)) \<and>
         \<not> is_space (last (resolve_hint h d))"
  using assms strip_ends by (auto simp: resolve_hint_def split: option.splits)

lemma trimmed_has_char: "h \<noteq> [] \<Longrightarrow> \<not> is_space (hd h) \<Longrightarrow> \<exists>c\<in>set h. \<not> is_space c"
  by (cases h) auto

section \<open>Facts about the scan of the lines\<close>

text \<open>
  The hint loop never raises, so the parse always returns, and its three fields are read
  off the final state of the scan.
\<close>

lemma parse_eq:
  "parse raw hm =
     Inr \<lparr>draft_title = (if title_var (scan_lines initial_state (split_lines (strip raw))) \<noteq> []
                          then title_var (scan_lines initial_state (split_lines (strip raw)))
                          else ''AI Generated Challenge''),
          draft_description = strip (description_var (scan_lines initial_state (split_lines (strip raw)))),
          draft_hints = [resolve_hint (dict_get hm ''hint_1'') (default_hints ! 0),
                         resolve_hint (dict_get hm ''hint_2'') (default_hints ! 1),
                         resolve_hint (dict_get hm ''hint_3'') (default_hints ! 2)]\<rparr>"
  by (simp only: parse_def ai_hints_of_eq fill_hints_three Let_def sum.case)

lemma step_blank: "strip l = [] \<Longrightarrow> step st l = st"
  by (simp add: step_def)

lemma step_title:
  "startswith (strip l) ''TITLE:'' \<Longrightarrow>
   step st l = st\<lparr>title_var := strip (replace ''TITLE:'' [] (strip l)),
                  current_section := Some ''title''\<rparr>"
  using startswith_hd [of "strip l"] by (auto simp: step_def Let_def)

lemma step_description:
  "startswith (strip l) ''DESCRIPTION:'' \<Longrightarrow>
   step st l = st\<lparr>current_section := Some ''description''\<rparr>"
  using startswith_hd [of "strip l" "CHR ''D''"] startswith_hd [of "strip l" "CHR ''T''"]
  by (auto simp: step_def Let_def)

lemma step_hint: "startswith (strip l) ''HINT'' \<Longrightarrow> step st l = st"
  using startswith_hd [of "strip l" "CHR ''H''"] startswith_hd [of "strip l" "CHR ''D''"]
    startswith_hd [of "strip l" "CHR ''T''"]
  by (auto simp: step_def Let_def)

lemma step_body:
  "current_section st = Some ''description'' \<Longrightarrow> strip l \<noteq> [] \<Longrightarrow>
   \<not> startswith (strip l) ''TITLE:'' \<Longrightarrow> \<not> startswith (strip l) ''DESCRIPTION:'' \<Longrightarrow>
   \<not> startswith (strip l) ''HINT'' \<Longrightarrow>
   step st l = st\<lparr>description_var := description_var st @ strip l @ ''\<newline>''\<rparr>"
  by (simp add: step_def Let_def)

lemma scan_lines_append: "scan_lines st (xs @ ys) = scan_lines (scan_lines st xs) ys"
  by (induction xs arbitrary: st) simp_all

lemma step_no_title:
  "\<not> startswith (strip l) ''TITLE:'' \<Longrightarrow> title_var (step st l) = title_var st"
  by (simp add: step_def Let_def)

lemma scan_no_title:
  "\<forall>y\<in>set ys. \<not> startswith (strip y) ''TITLE:'' \<Longrightarrow>
   title_var (scan_lines st ys) = title_var st"
  by (induction ys arbitrary: st) (simp_all add: step_no_title)

lemma step_outside_description:
  "current_section st \<noteq> Some ''description'' \<Longrightarrow> \<not> startswith (strip l) ''DESCRIPTION:'' \<Longrightarrow>
   description_var (step st l) = description_var st \<and>
   current_section (step st l) \<noteq> Some ''description''"
  by (simp add: step_def Let_def)

lemma scan_outside_description:
  "current_section st \<noteq> Some ''description'' \<Longrightarrow>
   \<forall>x\<in>set xs. \<not> startswith (strip x) ''DESCRIPTION:'' \<Longrightarrow>
   description_var (scan_lines st xs) = description_var st \<and>
   current_section (scan_lines st xs) \<noteq> Some ''description''"
proof (induction xs arbitrary: st)
  case Nil
  then show ?case by simp
next
  case (Cons x xs)
  from Cons.prems have a: "description_var (step st x) = description_var st"
    and b: "current_section (step st x) \<noteq> Some ''description''"
    using step_outside_description [of st x] by simp_all
  from Cons.IH [OF b] Cons.prems(2) a show ?case by simp
qed

lemma step_inside_description:
  "current_section st = Some ''description'' \<Longrightarrow> \<not> startswith (strip l) ''TITLE:'' \<Longrightarrow>
   current_section (step st l) = Some ''description'' \<and>
   description_var (step st l) =
     description_var st @ (if feeds_description l then strip l @ ''\<newline>'' else [])"
  by (simp add: step_def Let_def feeds_description_def)

lemma scan_inside_description:
  "current_section st = Some ''description'' \<Longrightarrow>
   \<forall>b\<in>set body. \<not> startswith (strip b) ''TITLE:'' \<Longrightarrow>
   description_var (scan_lines st body) =
     description_var st @ concat (map (\<lambda>b. strip b @ ''\<newline>'') (filter feeds_description body))"
proof (induction body arbitrary: st)
  case Nil
  then show ?case by simp
next
  case (Cons b body)
  from Cons.prems have a: "current_section (step st b) = Some ''description''"
    and d: "description_var (step st b) =
              description_var st @ (if feeds_description b then strip b @ ''\<newline>'' else [])"
    using step_inside_description [of st b] by simp_all
  from Cons.IH [OF a] Cons.prems(2) d show ?case by simp
qed

lemma scan_title_line:
  assumes "startswith (strip l) ''TITLE:''"
    and "\<forall>y\<in>set ys. \<not> startswith (strip y) ''TITLE:''"
  shows "title_var (scan_lines st (xs @ l # ys)) = strip (replace ''TITLE:'' [] (strip l))"
  using assms by (simp add: scan_lines_append scan_no_title step_title)

lemma scan_markerless:
  "\<forall>l\<in>set ls. \<not> startswith (strip l) ''TITLE:'' \<and> \<not> startswith (strip l) ''DESCRIPTION:'' \<Longrightarrow>
   title_var (scan_lines initial_state ls) = [] \<and> description_var (scan_lines initial_state ls) = []"
  using scan_no_title [of ls initial_state] scan_outside_description [of initial_state ls]
  by (simp add: initial_state_def)

lemma hint_slots:
  "\<exists>d. parse raw hm = Inr d \<and> length (draft_hints d) = 3 \<and>
       (\<forall>i<3. draft_hints d ! i =
               resolve_hint (dict_get hm (''hint_'' @ str_nat (Suc i))) (default_hints ! i))"
proof -
  obtain d where d: "parse raw hm = Inr d"
    and hs: "draft_hints d =
       [resolve_hint (dict_get hm ''hint_1'') (default_hints ! 0),
        resolve_hint (dict_get hm ''hint_2'') (default_hints ! 1),
        resolve_hint (dict_get hm ''hint_3'') (default_hints ! 2)]"
    by (simp add: parse_eq)
  have "draft_hints d ! i = resolve_hint (dict_get hm (''hint_'' @ str_nat (Suc i))) (default_hints ! i)"
    if "i < 3" for i
    using less_three [OF that] hs hint_key_of by auto
  with d hs show ?thesis by auto
qed

lemma step_title_trimmed:
  "title_var st = [] \<or> (\<not> is_space (hd (title_var st)) \<and> \<not> is_space (last (title_var st))) \<Longrightarrow>
   title_var (step st l) = [] \<or>
   (\<not> is_space (hd (title_var (step st l))) \<and> \<not> is_space (last (title_var (step st l))))"
  using strip_trimmed [of "replace ''TITLE:'' [] (strip l)"]
  by (auto simp: step_def Let_def)

lemma scan_title_trimmed:
  "title_var st = [] \<or> (\<not> is_space (hd (title_var st)) \<and> \<not> is_space (last (title_var st))) \<Longrightarrow>
   title_var (scan_lines st ls) = [] \<or>
   (\<not> is_space (hd (title_var (scan_lines st ls))) \<and>
    \<not> is_space (last (title_var (scan_lines st ls))))"
proof (induction ls arbitrary: st)
  case Nil
  then show ?case by simp
next
  case (Cons l ls)
  from Cons.IH [OF step_title_trimmed [OF Cons.prems]] show ?case by simp
qed

lemma parsed_title_trimmed:
  assumes "parse raw hm = Inr d"
  shows "draft_title d \<noteq> [] \<and> \<not> is_space (hd (draft_title d)) \<and> \<not> is_space (last (draft_title d))"
proof -
  let ?t = "title_var (scan_lines initial_state (split_lines (strip raw)))"
  have i0: "title_var initial_state = [] \<or>
      (\<not> is_space (hd (title_var initial_state)) \<and> \<not> is_space (last (title_var initial_state)))"
    by (simp add: initial_state_def)
  have inv: "?t = [] \<or> (\<not> is_space (hd ?t) \<and> \<not> is_space (last ?t))"
    using i0 by (rule scan_title_trimmed)
  have dt: "draft_title d = (if ?t \<noteq> [] then ?t else ''AI Generated Challenge'')"
    using assms unfolding parse_eq by auto
  show ?thesis
  proof (cases "?t = []")
    case True
    with dt have "draft_title d = ''AI Generated Challenge''" by simp
    with placeholder_trimmed show ?thesis by simp
  next
    case False
    with dt have "draft_title d = ?t" by simp
    with False inv show ?thesis by simp
  qed
qed

section \<open>Facts about the store\<close>

lemma fresh_pk_above: "(k, r) \<in> set tbl \<Longrightarrow> k < fresh_pk tbl"
  unfolding fresh_pk_def by (induction tbl) auto

lemma lookup_new_challenge:
  "is_approved c \<Longrightarrow>
   get_object_or_404 (s\<lparr>challenges := challenges s @ [(fresh_pk (challenges s), c)]\<rparr>)
     (fresh_pk (challenges s)) = Some c"
proof -
  assume a: "is_approved c"
  have "filter (\<lambda>(k, c). k = fresh_pk (challenges s) \<and> is_approved c) (challenges s) = []"
    using fresh_pk_above [of _ _ "challenges s"] by (auto simp: filter_empty_conv)
  with a show ?thesis by (simp add: get_object_or_404_def)
qed

lemma generation_failed_challenges: "challenges (snd (generation_failed s)) = challenges s"
  by (simp add: generation_failed_def add_message_def)





section \<open>The claims\<close>

text \<open>
  C1. For every text and every hint mapping the parse returns three hints, none of them
  blank: each has a character that is not whitespace and neither begins nor ends with
  whitespace. Slot \<open>i\<close> is the default of slot \<open>i\<close> when the value of key \<open>hint_{i+1}\<close> is
  absent, \<open>None\<close> or made of whitespace only; otherwise it is that value trimmed, that is,
  the value without a whitespace prefix and a whitespace suffix. A mapping with padded
  values is evaluated.
\<close>

theorem hints_total:
  "(\<exists>d. parse raw hm = Inr d \<and> length (draft_hints d) = 3 \<and>
        (\<forall>i<3. draft_hints d ! i \<noteq> [] \<and> (\<exists>c\<in>set (draft_hints d ! i). \<not> is_space c) \<and>
                \<not> is_space (hd (draft_hints d ! i)) \<and> \<not> is_space (last (draft_hints d ! i))) \<and>
        (\<forall>i<3. (hm (''hint_'' @ str_nat (Suc i)) = None \<or>
                 hm (''hint_'' @ str_nat (Suc i)) = Some None \<or>
                 (\<exists>t. hm (''hint_'' @ str_nat (Suc i)) = Some (Some t) \<and> (\<forall>c\<in>set t. is_space c)))
               \<longrightarrow> draft_hints d ! i = default_hints ! i) \<and>
        (\<forall>i<3. \<forall>t. hm (''hint_'' @ str_nat (Suc i)) = Some (Some t) \<and> (\<exists>c\<in>set t. \<not> is_space c)
               \<longrightarrow> draft_hints d ! i = strip t \<and>
                   (\<exists>pre post. t = pre @ draft_hints d ! i @ post \<and>
                      (\<forall>c\<in>set pre. is_space c) \<and> (\<forall>c\<in>set post. is_space c)))) \<and>
   map_sum id draft_hints (parse [] padded_hint_map) =
     Inr [''Use a loop'', default_hints ! 1, ''Check  bounds'']"
proof -
  have ex: "map_sum id draft_hints (parse [] padded_hint_map) =
     Inr [''Use a loop'', default_hints ! 1, ''Check  bounds'']"
    by code_simp
  from hint_slots [of raw hm] obtain d where d: "parse raw hm = Inr d"
    and len: "length (draft_hints d) = 3"
    and slot: "\<And>i. i < 3 \<Longrightarrow> draft_hints d ! i =
               resolve_hint (dict_get hm (''hint_'' @ str_nat (Suc i))) (default_hints ! i)"
    by blast
  have a: "draft_hints d ! i \<noteq> [] \<and> (\<exists>c\<in>set (draft_hints d ! i). \<not> is_space c) \<and>
           \<not> is_space (hd (draft_hints d ! i)) \<and> \<not> is_space (last (draft_hints d ! i))"
    if "i < 3" for i
    using resolve_hint_trimmed [OF default_hint_trimmed [OF that]] slot [OF that] trimmed_has_char
    by simp
  have b: "draft_hints d ! i = default_hints ! i"
    if "i < 3" and "hm (''hint_'' @ str_nat (Suc i)) = None \<or>
                 hm (''hint_'' @ str_nat (Suc i)) = Some None \<or>
                 (\<exists>t. hm (''hint_'' @ str_nat (Suc i)) = Some (Some t) \<and> (\<forall>c\<in>set t. is_space c))" for i
  proof -
    from that(2) have "hm (''hint_'' @ str_nat (Suc i)) = None \<or>
                 hm (''hint_'' @ str_nat (Suc i)) = Some None \<or>
                 (\<exists>t. hm (''hint_'' @ str_nat (Suc i)) = Some (Some t) \<and> strip t = [])"
      by (simp add: strip_blank)
    from resolve_hint_default [OF dict_get_blank [of hm "''hint_'' @ str_nat (Suc i)", OF this]]
      slot [OF that(1)] show ?thesis by simp
  qed
  have c: "draft_hints d ! i = strip t \<and>
           (\<exists>pre post. t = pre @ draft_hints d ! i @ post \<and>
              (\<forall>c\<in>set pre. is_space c) \<and> (\<forall>c\<in>set post. is_space c))"
    if "i < 3" and "hm (''hint_'' @ str_nat (Suc i)) = Some (Some t) \<and> (\<exists>c\<in>set t. \<not> is_space c)" for i t
  proof -
    from that(2) have n: "strip t \<noteq> []" by (simp add: strip_blank)
    from slot [OF that(1)] that(2) n have "draft_hints d ! i = strip t"
      by (simp add: dict_get_given resolve_hint_given)
    with strip_decomp [of t] show ?thesis by simp
  qed
  from d len a b c ex show ?thesis by blast
qed

theorem hints_total_witness:
  "padded_hint_map (''hint_'' @ str_nat (Suc 0)) = Some (Some ''  Use a loop \<newline>'') \<and>
   (\<exists>c\<in>set ''  Use a loop \<newline>''. \<not> is_space c) \<and>
   padded_hint_map (''hint_'' @ str_nat (Suc 1)) = Some (Some '' \<newline> '') \<and>
   list_all is_space '' \<newline> '' \<and>
   (\<exists>d. parse ''TITLE: Loops'' padded_hint_map = Inr d \<and>
        draft_hints d ! 0 = ''Use a loop'' \<and> draft_hints d ! 1 = default_hints ! 1)"
proof -
  have h1: "padded_hint_map (''hint_'' @ str_nat (Suc 0)) = Some (Some ''  Use a loop \<newline>'')"
    by code_simp
  have n1: "\<not> is_space (CHR ''U'')" by code_simp
  then have h2: "\<exists>c\<in>set ''  Use a loop \<newline>''. \<not> is_space c" by simp
  have h3: "padded_hint_map (''hint_'' @ str_nat (Suc 1)) = Some (Some '' \<newline> '')"
    by code_simp
  have h4: "list_all is_space '' \<newline> ''" by code_simp
  then have h4': "\<forall>c\<in>set '' \<newline> ''. is_space c" by (simp only: list_all_iff)
  have e: "strip ''  Use a loop \<newline>'' = ''Use a loop''" by code_simp
  have lt: "(1::nat) < 3" by simp
  from hints_total [of "''TITLE: Loops''" padded_hint_map]
  obtain d where d: "parse ''TITLE: Loops'' padded_hint_map = Inr d"
    and dflt: "\<And>i. i < 3 \<Longrightarrow>
        padded_hint_map (''hint_'' @ str_nat (Suc i)) = None \<or>
        padded_hint_map (''hint_'' @ str_nat (Suc i)) = Some None \<or>
        (\<exists>t. padded_hint_map (''hint_'' @ str_nat (Suc i)) = Some (Some t) \<and> (\<forall>c\<in>set t. is_space c))
        \<Longrightarrow> draft_hints d ! i = default_hints ! i"
    and given: "\<And>i t. i < 3 \<Longrightarrow>
        padded_hint_map (''hint_'' @ str_nat (Suc i)) = Some (Some t) \<and> (\<exists>c\<in>set t. \<not> is_space c)
        \<Longrightarrow> draft_hints d ! i = strip t"
    by blast
  have "draft_hints d ! 0 = ''Use a loop''"
    using given [of 0 "''  Use a loop \<newline>''"] h1 h2 e by simp
  moreover have "draft_hints d ! 1 = default_hints ! 1"
    using dflt [OF lt] h3 h4' by blast
  ultimately show ?thesis using d h1 h2 h3 h4 by blast
qed

text \<open>
  C2, as the code has it. The claim that a line starting with \<open>HINT\<close> ends the
  accumulation fails: such a line is skipped and the section stays \<open>description\<close>, so a
  later line is still appended.
\<close>

theorem description_continues_after_hint_counterexample:
  "parse ''DESCRIPTION:\<newline>Line one\<newline>HINT_1: foo\<newline>Line two'' Map.empty =
     Inr \<lparr>draft_title = ''AI Generated Challenge'',
          draft_description = ''Line one\<newline>Line two'',
          draft_hints = default_hints\<rparr>"
  by code_simp

text \<open>
  C2, amended. When the first \<open>DESCRIPTION:\<close> marker line is followed by no \<open>TITLE:\<close>
  line, the description is made of all the lines after the marker that are not blank, not
  a further \<open>DESCRIPTION:\<close> marker and do not start with \<open>HINT\<close>, each trimmed and
  followed by a newline, the whole trimmed. A line starting with \<open>HINT\<close> leaves the state
  of the scan as it was. The example of the specification has the description
  \<open>Line one\nLine two\<close>.
\<close>

theorem description_accumulation:
  assumes "split_lines (strip raw) = xs @ m # body"
    and "startswith (strip m) ''DESCRIPTION:''"
    and "\<forall>x\<in>set xs. \<not> startswith (strip x) ''DESCRIPTION:''"
    and "\<forall>b\<in>set body. \<not> startswith (strip b) ''TITLE:''"
  shows "(\<exists>d. parse raw hm = Inr d \<and>
            draft_description d =
              strip (concat (map (\<lambda>b. strip b @ ''\<newline>'') (filter feeds_description body)))) \<and>
         (startswith (strip h) ''HINT'' \<longrightarrow> step st h = st) \<and>
         map_sum id draft_description
           (parse ''DESCRIPTION:\<newline>Line one\<newline>Line two\<newline>HINT_1: foo'' Map.empty) =
           Inr ''Line one\<newline>Line two''"
proof -
  let ?s1 = "scan_lines initial_state xs"
  have a: "description_var ?s1 = []"
    using scan_outside_description [of initial_state xs] assms(3)
    by (simp add: initial_state_def)
  let ?s2 = "step ?s1 m"
  have b: "current_section ?s2 = Some ''description''" and c: "description_var ?s2 = []"
    using a assms(2) by (simp_all add: step_description)
  have "description_var (scan_lines initial_state (split_lines (strip raw))) =
      concat (map (\<lambda>b. strip b @ ''\<newline>'') (filter feeds_description body))"
    using scan_inside_description [OF b assms(4)] c
    by (simp add: assms(1) scan_lines_append)
  moreover have "map_sum id draft_description
           (parse ''DESCRIPTION:\<newline>Line one\<newline>Line two\<newline>HINT_1: foo'' Map.empty) =
           Inr ''Line one\<newline>Line two''"
    by code_simp
  ultimately show ?thesis by (simp add: parse_eq step_hint)
qed

theorem description_accumulation_witness:
  "split_lines (strip ''DESCRIPTION:\<newline>Line one\<newline>HINT_1: foo\<newline>Line two'') =
     [] @ ''DESCRIPTION:'' # [''Line one'', ''HINT_1: foo'', ''Line two''] \<and>
   startswith (strip ''DESCRIPTION:'') ''DESCRIPTION:'' \<and>
   \<not> startswith (strip ''Line one'') ''TITLE:'' \<and>
   \<not> startswith (strip ''HINT_1: foo'') ''TITLE:'' \<and>
   \<not> startswith (strip ''Line two'') ''TITLE:'' \<and>
   startswith (strip ''HINT_1: foo'') ''HINT'' \<and>
   step initial_state ''HINT_1: foo'' = initial_state \<and>
   (\<exists>d. parse ''DESCRIPTION:\<newline>Line one\<newline>HINT_1: foo\<newline>Line two'' Map.empty = Inr d \<and>
        draft_description d = ''Line one\<newline>Line two'')"
proof -
  have h1: "split_lines (strip ''DESCRIPTION:\<newline>Line one\<newline>HINT_1: foo\<newline>Line two'') =
     [] @ ''DESCRIPTION:'' # [''Line one'', ''HINT_1: foo'', ''Line two'']"
    by code_simp
  have h2: "startswith (strip ''DESCRIPTION:'') ''DESCRIPTION:''" by code_simp
  have h3: "\<forall>x\<in>set ([]::string list). \<not> startswith (strip x) ''DESCRIPTION:''" by simp
  have t: "\<not> startswith (strip ''Line one'') ''TITLE:''" "\<not> startswith (strip ''HINT_1: foo'') ''TITLE:''"
    "\<not> startswith (strip ''Line two'') ''TITLE:''"
    by code_simp+
  have h4: "\<forall>b\<in>set [''Line one'', ''HINT_1: foo'', ''Line two'']. \<not> startswith (strip b) ''TITLE:''"
    using t by simp
  have h5: "startswith (strip ''HINT_1: foo'') ''HINT''" by code_simp
  have e: "strip (concat (map (\<lambda>b. strip b @ ''\<newline>'')
             (filter feeds_description [''Line one'', ''HINT_1: foo'', ''Line two'']))) =
           ''Line one\<newline>Line two''"
    by code_simp
  from description_accumulation [OF h1 h2 h3 h4, of Map.empty "''HINT_1: foo''" initial_state]
    h1 h2 t h5 e
  show ?thesis by simp
qed

text \<open>
  C3. The claim says that the text after the first \<open>TITLE:\<close> prefix is kept as it is,
  further occurrences of \<open>TITLE:\<close> included. The code removes the prefix with
  \<open>line.replace("TITLE:", "")\<close>, which removes every occurrence: the theorem evaluates the
  parse at a title line that contains the marker a second time.
\<close>

theorem title_replace_removes_inner_markers:
  "parse ''TITLE: Parsing TITLE: headers'' Map.empty =
     Inr \<lparr>draft_title = ''Parsing  headers'', draft_description = [],
          draft_hints = default_hints\<rparr>"
  by code_simp

text \<open>
  C4, as the code has it. The fallback feedback is not the same for every failing request:
  it carries the name of the user who submitted, so two users get different messages.
\<close>

theorem feedback_fallback_differs_counterexample:
  "map (ai_feedback \<circ> snd)
     (solutions (snd (submit_solution ai_down solution_text_form (solution_post ''ann'') 1 example_site))) \<noteq>
   map (ai_feedback \<circ> snd)
     (solutions (snd (submit_solution ai_down solution_text_form (solution_post ''bob'') 1 example_site)))"
  by code_simp

text \<open>
  C4, amended. When the feedback service raises for a valid submission by a logged-in user
  to an approved challenge, and the store accepts the write, the exception is caught, the
  solution is saved, the user is told of the success, and \<open>ai_feedback\<close> is the fallback
  message, which is fixed apart from the name of the submitting user.
\<close>

theorem feedback_fallback_on_failure:
  assumes "req_user req = Some username"
    and "get_object_or_404 s pk = Some ch"
    and "req_method req = ''POST''"
    and "form (req_POST req) = Some text"
    and "get_challenge_feedback text ch username = Inl e"
    and "writable s"
  shows "submit_solution get_challenge_feedback form req pk s =
           (Redirect ''challenge_detail'' pk,
            s\<lparr>solutions := solutions s @
                 [(fresh_pk (solutions s),
                   \<lparr>solution_text = text, solution_challenge = pk, solution_user = username,
                    is_correct = True, correctness_level = Text ''correct'',
                    ai_feedback =
                      ''Our AI assistant is taking a break, but your solution shows real effort, '' @
                      username @ ''! Keep exploring different approaches and don't give up.''\<rparr>)],
              flash := flash s @
                 [(''success'', ''Your solution has been submitted! Check out the AI feedback.'')]\<rparr>)"
  using assms
  by (simp add: submit_solution_def save_solution_def add_message_def fallback_feedback_def Let_def)

theorem feedback_fallback_on_failure_witness:
  "req_user (solution_post ''ann'') = Some ''ann'' \<and>
   get_object_or_404 example_site 1 = Some (snd (hd (challenges example_site))) \<and>
   req_method (solution_post ''ann'') = ''POST'' \<and>
   solution_text_form (req_POST (solution_post ''ann'')) = Some ''print(1)'' \<and>
   ai_down ''print(1)'' (snd (hd (challenges example_site))) ''ann'' = Inl AIServiceError \<and>
   writable example_site \<and>
   map (ai_feedback \<circ> snd)
     (solutions (snd (submit_solution ai_down solution_text_form (solution_post ''ann'') 1 example_site))) =
   [''Our AI assistant is taking a break, but your solution shows real effort, ann! Keep exploring different approaches and don't give up.'']"
proof -
  have h1: "req_user (solution_post ''ann'') = Some ''ann''" by code_simp
  have h2: "get_object_or_404 example_site 1 = Some (snd (hd (challenges example_site)))"
    by code_simp
  have h3: "req_method (solution_post ''ann'') = ''POST''" by code_simp
  have h4: "solution_text_form (req_POST (solution_post ''ann'')) = Some ''print(1)''"
    by code_simp
  have h5: "ai_down ''print(1)'' (snd (hd (challenges example_site))) ''ann'' = Inl AIServiceError"
    by (simp add: ai_down_def)
  have h6: "writable example_site" by code_simp
  have e: "solutions example_site = []" by code_simp
  from feedback_fallback_on_failure
         [where get_challenge_feedback = ai_down and form = solution_text_form
            and req = "solution_post ''ann''" and s = example_site and pk = 1,
          OF h1 h2 h3 h4 h5 h6] h1 h2 h3 h4 h5 h6 e
  show ?thesis by simp
qed

text \<open>
  C5. The parse is total: for every text and every hint mapping it returns a draft (it
  never raises) with a non-empty title that neither begins nor ends with whitespace, a
  description that is empty or trimmed, and three hints, each with a character that is not
  whitespace. For the empty text, and for any text with no line starting with \<open>TITLE:\<close>
  or \<open>DESCRIPTION:\<close>, together with the empty hint mapping, it returns the all-defaults
  draft. A text and a mapping padded with whitespace are evaluated.
\<close>

theorem parse_total:
  "(\<exists>d. parse raw hm = Inr d \<and>
        draft_title d \<noteq> [] \<and> \<not> is_space (hd (draft_title d)) \<and> \<not> is_space (last (draft_title d)) \<and>
        (draft_description d = [] \<or>
         (\<not> is_space (hd (draft_description d)) \<and> \<not> is_space (last (draft_description d)))) \<and>
        length (draft_hints d) = 3 \<and>
        (\<forall>h\<in>set (draft_hints d).
           strip h \<noteq> [] \<and> (\<exists>c\<in>set h. \<not> is_space c) \<and> \<not> is_space (hd h) \<and> \<not> is_space (last h))) \<and>
   parse [] Map.empty = Inr all_defaults_draft \<and>
   ((\<forall>l\<in>set (split_lines (strip raw)).
        \<not> startswith (strip l) ''TITLE:'' \<and> \<not> startswith (strip l) ''DESCRIPTION:'') \<longrightarrow>
    parse raw Map.empty = Inr all_defaults_draft) \<and>
   parse ''  \<newline> TITLE:  Padded  \<newline> DESCRIPTION:\<newline>  body text \<newline>\<newline>'' padded_hint_map =
     Inr \<lparr>draft_title = ''Padded'', draft_description = ''body text'',
          draft_hints = [''Use a loop'', default_hints ! 1, ''Check  bounds'']\<rparr>"
proof -
  obtain d where d: "parse raw hm = Inr d"
    and hs: "draft_hints d =
       [resolve_hint (dict_get hm ''hint_1'') (default_hints ! 0),
        resolve_hint (dict_get hm ''hint_2'') (default_hints ! 1),
        resolve_hint (dict_get hm ''hint_3'') (default_hints ! 2)]"
    and ds: "draft_description d =
       strip (description_var (scan_lines initial_state (split_lines (strip raw))))"
    by (simp add: parse_eq)
  have t: "draft_title d \<noteq> [] \<and> \<not> is_space (hd (draft_title d)) \<and>
           \<not> is_space (last (draft_title d))"
    using parsed_title_trimmed [OF d] .
  have de: "draft_description d = [] \<or>
         (\<not> is_space (hd (draft_description d)) \<and> \<not> is_space (last (draft_description d)))"
    unfolding ds by (rule strip_trimmed)
  have slot: "h \<noteq> [] \<and> \<not> is_space (hd h) \<and> \<not> is_space (last h)" if "h \<in> set (draft_hints d)" for h
    using that hs resolve_hint_trimmed default_hints_trimmed by auto
  have hint: "strip h \<noteq> [] \<and> (\<exists>c\<in>set h. \<not> is_space c) \<and> \<not> is_space (hd h) \<and> \<not> is_space (last h)"
    if "h \<in> set (draft_hints d)" for h
  proof -
    from slot [OF that] have a: "h \<noteq> []" "\<not> is_space (hd h)" "\<not> is_space (last h)" by simp_all
    from trimmed_has_char [OF a(1,2)] have b: "\<exists>c\<in>set h. \<not> is_space c" .
    then have "strip h \<noteq> []" by (simp add: strip_blank)
    with a b show ?thesis by simp
  qed
  have wf: "\<exists>d. parse raw hm = Inr d \<and>
        draft_title d \<noteq> [] \<and> \<not> is_space (hd (draft_title d)) \<and> \<not> is_space (last (draft_title d)) \<and>
        (draft_description d = [] \<or>
         (\<not> is_space (hd (draft_description d)) \<and> \<not> is_space (last (draft_description d)))) \<and>
        length (draft_hints d) = 3 \<and>
        (\<forall>h\<in>set (draft_hints d).
           strip h \<noteq> [] \<and> (\<exists>c\<in>set h. \<not> is_space c) \<and> \<not> is_space (hd h) \<and> \<not> is_space (last h))"
    using d t de hint hs by (intro exI [of _ d]) simp
  have dflt: "[resolve_hint (dict_get Map.empty ''hint_1'') (default_hints ! 0),
               resolve_hint (dict_get Map.empty ''hint_2'') (default_hints ! 1),
               resolve_hint (dict_get Map.empty ''hint_3'') (default_hints ! 2)] = default_hints"
    using default_hints_list by (simp add: dict_get_def resolve_hint_absent)
  have markerless: "parse raw Map.empty = Inr all_defaults_draft"
    if "\<forall>l\<in>set (split_lines (strip raw)).
        \<not> startswith (strip l) ''TITLE:'' \<and> \<not> startswith (strip l) ''DESCRIPTION:''"
    using scan_markerless [OF that] dflt
    by (simp only: parse_eq all_defaults_draft_def strip_Nil if_False simp_thms)
  have empty: "parse [] Map.empty = Inr all_defaults_draft"
    using dflt
    by (simp only: parse_eq all_defaults_draft_def strip_Nil split_lines.simps scan_lines.simps
        step_blank initial_state_def parse_state.simps if_False simp_thms)
  have padded: "parse ''  \<newline> TITLE:  Padded  \<newline> DESCRIPTION:\<newline>  body text \<newline>\<newline>'' padded_hint_map =
     Inr \<lparr>draft_title = ''Padded'', draft_description = ''body text'',
          draft_hints = [''Use a loop'', default_hints ! 1, ''Check  bounds'']\<rparr>"
    by code_simp
  from wf markerless empty padded show ?thesis by blast
qed

theorem parse_total_witness:
  "split_lines (strip ''  Write a loop \<newline>HINT_1: use range'') =
     [''Write a loop '', ''HINT_1: use range''] \<and>
   \<not> startswith (strip ''Write a loop '') ''TITLE:'' \<and>
   \<not> startswith (strip ''Write a loop '') ''DESCRIPTION:'' \<and>
   \<not> startswith (strip ''HINT_1: use range'') ''TITLE:'' \<and>
   \<not> startswith (strip ''HINT_1: use range'') ''DESCRIPTION:'' \<and>
   parse ''  Write a loop \<newline>HINT_1: use range'' Map.empty = Inr all_defaults_draft"
proof -
  have l: "split_lines (strip ''  Write a loop \<newline>HINT_1: use range'') =
             [''Write a loop '', ''HINT_1: use range'']"
    by code_simp
  have a: "\<not> startswith (strip ''Write a loop '') ''TITLE:'' \<and>
           \<not> startswith (strip ''Write a loop '') ''DESCRIPTION:''"
    by code_simp
  have b: "\<not> startswith (strip ''HINT_1: use range'') ''TITLE:'' \<and>
           \<not> startswith (strip ''HINT_1: use range'') ''DESCRIPTION:''"
    by code_simp
  have h: "\<forall>l\<in>set (split_lines (strip ''  Write a loop \<newline>HINT_1: use range'')).
        \<not> startswith (strip l) ''TITLE:'' \<and> \<not> startswith (strip l) ''DESCRIPTION:''"
    unfolding l using a b by simp
  from parse_total [of "''  Write a loop \<newline>HINT_1: use range''" Map.empty] h
  have "parse ''  Write a loop \<newline>HINT_1: use range'' Map.empty = Inr all_defaults_draft"
    by blast
  with l a b show ?thesis by simp
qed

text \<open>
  C6. Each hint slot falls back on its own: slot \<open>i\<close> takes its default when the value of
  key \<open>hint_{i+1}\<close> is absent, \<open>None\<close> or blank after trimming, and the trimmed value
  otherwise, whatever the other keys hold. The example of the specification gives the
  first default, \<open>Check bounds\<close> and the third default.
\<close>

theorem hint_fallback_per_slot:
  "(\<exists>d. parse raw hm = Inr d \<and>
        (\<forall>i<3. (hm (''hint_'' @ str_nat (Suc i)) = None \<or>
                 hm (''hint_'' @ str_nat (Suc i)) = Some None \<or>
                 (\<exists>t. hm (''hint_'' @ str_nat (Suc i)) = Some (Some t) \<and> strip t = []))
               \<longrightarrow> draft_hints d ! i = default_hints ! i) \<and>
        (\<forall>i<3. \<forall>t. hm (''hint_'' @ str_nat (Suc i)) = Some (Some t) \<and> strip t \<noteq> []
               \<longrightarrow> draft_hints d ! i = strip t)) \<and>
   map_sum id draft_hints (parse [] example_hint_map) =
     Inr [default_hints ! 0, ''Check bounds'', default_hints ! 2]"
proof -
  have ex: "map_sum id draft_hints (parse [] example_hint_map) =
     Inr [default_hints ! 0, ''Check bounds'', default_hints ! 2]"
    by code_simp
  obtain d where d: "parse raw hm = Inr d"
    and hs: "draft_hints d =
       [resolve_hint (dict_get hm ''hint_1'') (default_hints ! 0),
        resolve_hint (dict_get hm ''hint_2'') (default_hints ! 1),
        resolve_hint (dict_get hm ''hint_3'') (default_hints ! 2)]"
    by (simp add: parse_eq)
  have slot: "draft_hints d ! i = resolve_hint (dict_get hm (''hint_'' @ str_nat (Suc i))) (default_hints ! i)"
    if "i < 3" for i
    using less_three [OF that] hs hint_key_of by auto
  have a: "draft_hints d ! i = default_hints ! i"
    if "i < 3" and "hm (''hint_'' @ str_nat (Suc i)) = None \<or>
                 hm (''hint_'' @ str_nat (Suc i)) = Some None \<or>
                 (\<exists>t. hm (''hint_'' @ str_nat (Suc i)) = Some (Some t) \<and> strip t = [])" for i
    using slot [OF that(1)]
      resolve_hint_default [OF dict_get_blank [of hm "''hint_'' @ str_nat (Suc i)", OF that(2)]]
    by simp
  have b: "draft_hints d ! i = strip t"
    if "i < 3" and "hm (''hint_'' @ str_nat (Suc i)) = Some (Some t) \<and> strip t \<noteq> []" for i t
    using slot [OF that(1)] that(2) by (simp add: dict_get_given resolve_hint_given)
  from d a b ex show ?thesis by blast
qed

theorem hint_fallback_per_slot_witness:
  "(example_hint_map ''hint_1'' = Some (Some ''  '') \<and> strip ''  '' = []) \<and>
   (example_hint_map ''hint_2'' = Some (Some ''Check bounds'') \<and> strip ''Check bounds'' \<noteq> []) \<and>
   example_hint_map ''hint_3'' = Some None \<and>
   (\<exists>d. parse ''TITLE: Bounds'' example_hint_map = Inr d \<and>
        draft_hints d ! 0 = default_hints ! 0 \<and>
        draft_hints d ! 1 = strip ''Check bounds'' \<and>
        draft_hints d ! 2 = default_hints ! 2)"
proof -
  have k: "''hint_'' @ str_nat (Suc 0) = ''hint_1''" "''hint_'' @ str_nat (Suc 1) = ''hint_2''"
    "''hint_'' @ str_nat (Suc 2) = ''hint_3''"
    by code_simp+
  have h1: "example_hint_map ''hint_1'' = Some (Some ''  '') \<and> strip ''  '' = []"
    by code_simp
  have h2: "example_hint_map ''hint_2'' = Some (Some ''Check bounds'') \<and> strip ''Check bounds'' \<noteq> []"
    by code_simp
  have h3: "example_hint_map ''hint_3'' = Some None"
    by code_simp
  from hint_fallback_per_slot [of "''TITLE: Bounds''" example_hint_map]
  obtain d where d: "parse ''TITLE: Bounds'' example_hint_map = Inr d"
    and dflt: "\<And>i. i < 3 \<Longrightarrow>
        example_hint_map (''hint_'' @ str_nat (Suc i)) = None \<or>
        example_hint_map (''hint_'' @ str_nat (Suc i)) = Some None \<or>
        (\<exists>t. example_hint_map (''hint_'' @ str_nat (Suc i)) = Some (Some t) \<and> strip t = [])
        \<Longrightarrow> draft_hints d ! i = default_hints ! i"
    and given: "\<And>i t. i < 3 \<Longrightarrow>
        example_hint_map (''hint_'' @ str_nat (Suc i)) = Some (Some t) \<and> strip t \<noteq> []
        \<Longrightarrow> draft_hints d ! i = strip t"
    by blast
  have "draft_hints d ! 0 = default_hints ! 0"
    using dflt [of 0] h1 k(1) by auto
  moreover have "draft_hints d ! 1 = strip ''Check bounds''"
    using given [of 1 "''Check bounds''"] h2 k(2) by simp
  moreover have "draft_hints d ! 2 = default_hints ! 2"
    using dflt [of 2] h3 k(3) by simp
  ultimately show ?thesis using d h1 h2 h3 by blast
qed

text \<open>
  C7. The title comes from the last line starting with \<open>TITLE:\<close>: what that line yields
  overwrites every earlier title (and the placeholder stands in when it yields nothing).
  For \<open>TITLE: First\nTITLE: Second\<close> the title is \<open>Second\<close>.
\<close>

theorem last_title_wins:
  assumes "split_lines (strip raw) = xs @ l # ys"
    and "startswith (strip l) ''TITLE:''"
    and "\<forall>y\<in>set ys. \<not> startswith (strip y) ''TITLE:''"
  shows "(\<exists>d. parse raw hm = Inr d \<and>
            draft_title d =
              (if strip (replace ''TITLE:'' [] (strip l)) \<noteq> []
               then strip (replace ''TITLE:'' [] (strip l))
               else ''AI Generated Challenge'')) \<and>
         map_sum id draft_title (parse ''TITLE: First\<newline>TITLE: Second'' Map.empty) = Inr ''Second''"
proof -
  have "map_sum id draft_title (parse ''TITLE: First\<newline>TITLE: Second'' Map.empty) = Inr ''Second''"
    by code_simp
  moreover have "title_var (scan_lines initial_state (split_lines (strip raw))) =
      strip (replace ''TITLE:'' [] (strip l))"
    using assms scan_title_line by simp
  ultimately show ?thesis by (simp add: parse_eq)
qed

theorem last_title_wins_witness:
  "split_lines (strip ''TITLE: First\<newline>TITLE: Second'') = [''TITLE: First''] @ ''TITLE: Second'' # [] \<and>
   startswith (strip ''TITLE: Second'') ''TITLE:'' \<and>
   (\<exists>d. parse ''TITLE: First\<newline>TITLE: Second'' Map.empty = Inr d \<and> draft_title d = ''Second'')"
proof -
  have h1: "split_lines (strip ''TITLE: First\<newline>TITLE: Second'') = [''TITLE: First''] @ ''TITLE: Second'' # []"
    by code_simp
  have h2: "startswith (strip ''TITLE: Second'') ''TITLE:''"
    by code_simp
  have h3: "\<forall>y\<in>set ([]::string list). \<not> startswith (strip y) ''TITLE:''"
    by simp
  have e: "strip (replace ''TITLE:'' [] (strip ''TITLE: Second'')) = ''Second''"
    by code_simp
  from last_title_wins [OF h1 h2 h3, of Map.empty] h1 h2 e show ?thesis
    by simp
qed

text \<open>
  C8. What follows \<open>DESCRIPTION:\<close> on the marker line is dropped: two texts that differ
  only in the content of a marker line parse to the same draft, and the marker line only
  switches the section, leaving the description buffer as it was.
\<close>

theorem description_marker_content_discarded:
  assumes "split_lines (strip raw) = xs @ l # ys"
    and "split_lines (strip raw') = xs @ l' # ys"
    and "startswith (strip l) ''DESCRIPTION:''"
    and "startswith (strip l') ''DESCRIPTION:''"
  shows "parse raw hm = parse raw' hm \<and>
         description_var (step st l) = description_var st \<and>
         current_section (step st l) = Some ''description''"
  using assms by (simp add: parse_eq scan_lines_append step_description)

theorem description_marker_content_discarded_witness:
  "split_lines (strip ''TITLE: T\<newline>DESCRIPTION: intro\<newline>body'') = [''TITLE: T''] @ ''DESCRIPTION: intro'' # [''body''] \<and>
   split_lines (strip ''TITLE: T\<newline>DESCRIPTION:\<newline>body'') = [''TITLE: T''] @ ''DESCRIPTION:'' # [''body''] \<and>
   startswith (strip ''DESCRIPTION: intro'') ''DESCRIPTION:'' \<and>
   startswith (strip ''DESCRIPTION:'') ''DESCRIPTION:'' \<and>
   parse ''TITLE: T\<newline>DESCRIPTION: intro\<newline>body'' Map.empty =
     parse ''TITLE: T\<newline>DESCRIPTION:\<newline>body'' Map.empty \<and>
   parse ''TITLE: T\<newline>DESCRIPTION: intro\<newline>body'' Map.empty =
     Inr \<lparr>draft_title = ''T'', draft_description = ''body'', draft_hints = default_hints\<rparr>"
proof -
  have h1: "split_lines (strip ''TITLE: T\<newline>DESCRIPTION: intro\<newline>body'') = [''TITLE: T''] @ ''DESCRIPTION: intro'' # [''body'']"
    by code_simp
  have h2: "split_lines (strip ''TITLE: T\<newline>DESCRIPTION:\<newline>body'') = [''TITLE: T''] @ ''DESCRIPTION:'' # [''body'']"
    by code_simp
  have h3: "startswith (strip ''DESCRIPTION: intro'') ''DESCRIPTION:''"
    by code_simp
  have h4: "startswith (strip ''DESCRIPTION:'') ''DESCRIPTION:''"
    by code_simp
  have e: "parse ''TITLE: T\<newline>DESCRIPTION: intro\<newline>body'' Map.empty =
     Inr \<lparr>draft_title = ''T'', draft_description = ''body'', draft_hints = default_hints\<rparr>"
    by code_simp
  from description_marker_content_discarded [OF h1 h2 h3 h4, of Map.empty initial_state]
  have "parse ''TITLE: T\<newline>DESCRIPTION: intro\<newline>body'' Map.empty =
     parse ''TITLE: T\<newline>DESCRIPTION:\<newline>body'' Map.empty" by simp
  with h1 h2 h3 h4 e show ?thesis by (simp only: simp_thms)
qed



text \<open>
  C10. A run of \<open>generate_ai_challenge\<close> either leaves the table of challenges as it was
  or appends exactly one challenge, which has \<open>is_ai_generated\<close> and \<open>is_approved\<close> set,
  is found by the approved-only lookup of the detail view and is in the approved-only
  query of the listing; and a POST by a logged-in user whose generation call returns, on a
  store that accepts the write, does append one, for every difficulty, topic and result.
\<close>

theorem ai_challenge_auto_approved:
  "(challenges (snd (generate_ai_challenge gen req s)) = challenges s \<or>
    (\<exists>c. challenges (snd (generate_ai_challenge gen req s)) =
            challenges s @ [(fresh_pk (challenges s), c)] \<and>
         fst (generate_ai_challenge gen req s) =
            Redirect ''challenge_detail'' (fresh_pk (challenges s)) \<and>
         is_ai_generated c \<and> is_approved c \<and>
         get_object_or_404 (snd (generate_ai_challenge gen req s)) (fresh_pk (challenges s)) = Some c \<and>
         (fresh_pk (challenges s), c) \<in> set (approved_challenges (snd (generate_ai_challenge gen req s))))) \<and>
   (req_user req = Some u \<and> req_method req = ''POST'' \<and> writable s \<and>
    gen (post_get req ''difficulty'' ''beginner'') (post_get req ''topic'' ''programming'') u = Inr result
    \<longrightarrow> (\<exists>c. challenges (snd (generate_ai_challenge gen req s)) =
                challenges s @ [(fresh_pk (challenges s), c)] \<and>
             is_ai_generated c \<and> is_approved c \<and> difficulty c = post_get req ''difficulty'' ''beginner'' \<and>
             created_by c = u))"
proof -
  have saved: "\<exists>c. challenges (snd (generate_ai_challenge gen req s)) =
            challenges s @ [(fresh_pk (challenges s), c)] \<and>
         fst (generate_ai_challenge gen req s) =
            Redirect ''challenge_detail'' (fresh_pk (challenges s)) \<and>
         is_ai_generated c \<and> is_approved c \<and>
         difficulty c = post_get req ''difficulty'' ''beginner'' \<and> created_by c = u \<and>
         get_object_or_404 (snd (generate_ai_challenge gen req s)) (fresh_pk (challenges s)) = Some c \<and>
         (fresh_pk (challenges s), c) \<in> set (approved_challenges (snd (generate_ai_challenge gen req s)))"
    if a: "req_user req = Some u" "req_method req = ''POST''" "writable s"
      "gen (post_get req ''difficulty'' ''beginner'') (post_get req ''topic'' ''programming'') u = Inr result"
    for u result
  proof -
    obtain d where d: "parse (gen_raw result) (gen_hints result) = Inr d"
      by (simp add: parse_eq)
    let ?c = "\<lparr>title = draft_title d, description = draft_description d,
               difficulty = post_get req ''difficulty'' ''beginner'', hints = draft_hints d,
               created_by = u, is_ai_generated = True, is_approved = True\<rparr>"
    let ?s' = "s\<lparr>challenges := challenges s @ [(fresh_pk (challenges s), ?c)]\<rparr>"
    have out: "generate_ai_challenge gen req s =
        (Redirect ''challenge_detail'' (fresh_pk (challenges s)),
         add_message ''success'' ''Your AI challenge has been generated!'' ?s')"
      using a d by (simp add: generate_ai_challenge_def save_challenge_def Let_def)
    have look: "get_object_or_404 (add_message ''success'' ''Your AI challenge has been generated!'' ?s')
        (fresh_pk (challenges s)) = Some ?c"
      using lookup_new_challenge [of ?c s]
      by (simp add: get_object_or_404_def add_message_def)
    show ?thesis
      unfolding out using look
      by (intro exI [of _ ?c]) (simp add: add_message_def approved_challenges_def)
  qed
  have "challenges (snd (generate_ai_challenge gen req s)) = challenges s"
    if "\<not> (\<exists>u result. req_user req = Some u \<and> req_method req = ''POST'' \<and> writable s \<and>
          gen (post_get req ''difficulty'' ''beginner'') (post_get req ''topic'' ''programming'') u = Inr result)"
    using that
    by (auto simp: generate_ai_challenge_def save_challenge_def Let_def generation_failed_challenges
        split: option.splits sum.splits)
  with saved show ?thesis by blast
qed

theorem ai_challenge_auto_approved_witness:
  "req_user (generate_post ''ann'') = Some ''ann'' \<and> req_method (generate_post ''ann'') = ''POST'' \<and>
   writable example_site \<and>
   map (\<lambda>(k, c). (k, title c, is_ai_generated c, is_approved c))
     (approved_challenges (snd (generate_ai_challenge ai_up (generate_post ''ann'') example_site))) =
     [(1, ''Two Sum'', False, True), (2, ''Reverse a List'', True, True)] \<and>
   (\<exists>c. challenges (snd (generate_ai_challenge ai_up (generate_post ''ann'') example_site)) =
          challenges example_site @ [(fresh_pk (challenges example_site), c)] \<and>
        is_ai_generated c \<and> is_approved c)"
proof -
  have h1: "req_user (generate_post ''ann'') = Some ''ann''" by code_simp
  have h2: "req_method (generate_post ''ann'') = ''POST''" by code_simp
  have h3: "writable example_site" by code_simp
  have h4: "ai_up (post_get (generate_post ''ann'') ''difficulty'' ''beginner'')
              (post_get (generate_post ''ann'') ''topic'' ''programming'') ''ann'' =
            Inr \<lparr>gen_raw = ''TITLE: Reverse a List\<newline>DESCRIPTION:\<newline>Reverse it in place.'',
                 gen_hints = Map.empty\<rparr>"
    by (simp add: ai_up_def)
  have e: "map (\<lambda>(k, c). (k, title c, is_ai_generated c, is_approved c))
     (approved_challenges (snd (generate_ai_challenge ai_up (generate_post ''ann'') example_site))) =
     [(1, ''Two Sum'', False, True), (2, ''Reverse a List'', True, True)]"
    by code_simp
  from ai_challenge_auto_approved
         [where gen = ai_up and req = "generate_post ''ann''" and s = example_site and u = "''ann''"
            and result = "\<lparr>gen_raw = ''TITLE: Reverse a List\<newline>DESCRIPTION:\<newline>Reverse it in place.'',
                 gen_hints = Map.empty\<rparr>"]
    h1 h2 h3 h4 e
  show ?thesis by blast
qed

end
